theory Spec2Isabelle
  imports Main "HOL-Library.Word"
begin

section \<open>The triangle mesh of miniply-perf.cpp\<close>

text \<open>
  The embedding follows \<^verbatim>\<open>extra/miniply-perf.cpp\<close>. C++ \<^verbatim>\<open>uint32_t\<close> and
  \<^verbatim>\<open>int\<close> are 32-bit words: arithmetic wraps, \<open>sint\<close> reads a word as the signed
  \<^verbatim>\<open>int\<close>, the order on words is the unsigned one. \<^verbatim>\<open>float\<close> values are never
  inspected by the program, so they are kept as an opaque type \<open>'f\<close>.
\<close>

datatype Topology = Soup | Strip | Fan

text \<open>
  A buffer that is a null pointer is \<open>None\<close> for the per-vertex data; for the index
  array it is the empty list (with \<open>numIndices = 0\<close> no cell of it is ever read).
\<close>

record 'f TriMesh =
  pos :: "'f list option"
  normal :: "'f list option"
  uv :: "'f list option"
  color :: "8 word list option"
  numVerts :: "32 word"
  indices :: "32 word list"
  numIndices :: "32 word"
  topology :: Topology
  hasTerminator :: bool
  terminator :: "32 word"

definition new_TriMesh :: "'f TriMesh" where
  "new_TriMesh =
     \<lparr>pos = None, normal = None, uv = None, color = None, numVerts = 0,
      indices = [], numIndices = 0,
      topology = Soup, hasTerminator = False, terminator = - 1\<rparr>"

text \<open>
  What C++ leaves undefined is a value of its own in the model: a read of an array cell
  that nothing wrote, a write past the end of an allocated array, \<^verbatim>\<open>back()\<close> on an
  empty \<^verbatim>\<open>std::string\<close>, and overflow of a signed counter.
\<close>

datatype fault = IndeterminateRead | BufferOverrun | EmptyStringBack | SignedOverflow

subsection \<open>\<^verbatim>\<open>TriMesh::all_indices_valid\<close>\<close>

text \<open>
  The loop of lines 110 to 117, from index \<open>i\<close> on. The array holds the cells that
  were written; a cell beyond them (but below \<open>numIndices\<close>) is indeterminate.
\<close>

function indices_loop :: "bool \<Rightarrow> 'f TriMesh \<Rightarrow> 32 word \<Rightarrow> fault + bool" where
  "indices_loop checkTerminator m i =
     (if i < numIndices m then
        (if unat i \<ge> length (indices m) then Inl IndeterminateRead
         else if checkTerminator \<and> indices m ! unat i = terminator m then
           indices_loop checkTerminator m (i + 1)
         else if sint (indices m ! unat i) < 0 \<or> numVerts m \<le> indices m ! unat i then
           Inr False
         else indices_loop checkTerminator m (i + 1))
      else Inr True)"
  by pat_completeness auto

termination indices_loop
proof (relation "measure (\<lambda>(c, m, i). unat (numIndices m) - unat i)")
  show "wf (measure (\<lambda>(c, m, i). unat (numIndices m) - unat i))"
    by simp
next
  fix checkTerminator :: bool and m :: "'f TriMesh" and i :: "32 word"
  assume "i < numIndices m"
  then have less: "unat i < unat (numIndices m)"
    by (simp add: word_less_nat_alt)
  have "unat (numIndices m) < 2 ^ 32"
    using unsigned_less [of "numIndices m", where ?'a = nat] by simp
  with less have "unat i + unat (1 :: 32 word) < 2 ^ LENGTH(32)"
    by simp
  then have "unat (i + 1) = unat i + unat (1 :: 32 word)"
    by (simp only: unat_add_lem)
  with less have step: "((checkTerminator, m, i + 1), (checkTerminator, m, i))
             \<in> measure (\<lambda>(c, m, i). unat (numIndices m) - unat i)"
    by simp
  show "((checkTerminator, m, i + 1), (checkTerminator, m, i))
             \<in> measure (\<lambda>(c, m, i). unat (numIndices m) - unat i)"
    by (rule step)
  show "((checkTerminator, m, i + 1), (checkTerminator, m, i))
             \<in> measure (\<lambda>(c, m, i). unat (numIndices m) - unat i)"
    by (rule step)
qed

definition all_indices_valid :: "'f TriMesh \<Rightarrow> fault + bool" where
  "all_indices_valid m =
     (let checkTerminator =
            (topology m \<noteq> Soup \<and> hasTerminator m \<and>
             (sint (terminator m) < 0 \<or> sint (terminator m) \<ge> sint (numVerts m)))
      in indices_loop checkTerminator m 0)"

section \<open>The record source\<close>

text \<open>
  \<^verbatim>\<open>miniply::PLYReader\<close> is declared in \<^verbatim>\<open>miniply.h\<close>, outside the program
  verified here. An element of the file carries the answers the reader gives while that
  element is current, so that every behaviour of the reader is an input of the model.
  A property index that is \<^verbatim>\<open>kInvalidIndex\<close> is \<open>None\<close>.
\<close>

record 'f PLYElement =
  name :: string
  load_element :: bool
  num_rows :: "32 word"
  find_pos :: "'f list option"
  find_normal :: "'f list option"
  find_texcoord :: "'f list option"
  find_color_rgba :: "8 word list option"
  find_property :: "string \<Rightarrow> nat option"
  find_indices :: "nat option"
  list_rows :: "nat \<Rightarrow> 32 word list list"
  requires_triangulation :: "nat \<Rightarrow> bool"
  num_triangles :: "nat \<Rightarrow> 32 word"
  extract_triangles :: "nat \<Rightarrow> 'f list option \<Rightarrow> 32 word \<Rightarrow> 32 word list"

text \<open>
  \<open>find_pos\<close>, \<open>find_normal\<close>, \<open>find_texcoord\<close> and \<open>find_color_rgba\<close> are \<open>None\<close>
  when the reader returns false, and otherwise hold the values that the following
  \<^verbatim>\<open>extract_properties\<close> call writes. \<open>list_rows e p\<close> are the rows of the list
  property \<open>p\<close>, each converted to \<^verbatim>\<open>int\<close>. \<open>extract_triangles e p pos n\<close> are the
  values the reader writes when it triangulates property \<open>p\<close> over the positions \<open>pos\<close>
  of \<open>n\<close> vertices.
\<close>

record 'f PLYReader =
  valid :: bool
  elements :: "'f PLYElement list"

text \<open>Modelled from the spec: the well-known names of the vertex and the face element,
  constants of \<^verbatim>\<open>miniply.h\<close>.\<close>

definition kPLYVertexElement :: string where
  "kPLYVertexElement = ''vertex''"

definition kPLYFaceElement :: string where
  "kPLYFaceElement = ''face''"

text \<open>Modelled from the spec: \<^verbatim>\<open>get_element(find_element(name))\<close> looks the element
  up by name, in file order; the null pointer is \<open>None\<close>.\<close>

definition find_element :: "'f PLYReader \<Rightarrow> string \<Rightarrow> 'f PLYElement option" where
  "find_element reader nm = find (\<lambda>e. name e = nm) (elements reader)"

text \<open>Modelled from the spec: \<^verbatim>\<open>convert_list_to_fixed_size\<close> coerces a
  variable-length list property to a fixed row width, failing if any row's length does
  not match; without a property there is nothing to coerce.\<close>

definition convert_list_to_fixed_size :: "'f PLYElement \<Rightarrow> nat option \<Rightarrow> nat \<Rightarrow> bool" where
  "convert_list_to_fixed_size e listPropIdx listSize =
     (case listPropIdx of
        None \<Rightarrow> False
      | Some p \<Rightarrow> list_all (\<lambda>row. length row = listSize) (list_rows e p))"

text \<open>Modelled from the spec: \<^verbatim>\<open>extract_properties\<close> over the columns of a list
  property that was coerced to a fixed width writes the items of every row, in order.\<close>

definition extract_fixed_size :: "'f PLYElement \<Rightarrow> nat \<Rightarrow> 32 word list" where
  "extract_fixed_size e p = concat (list_rows e p)"

text \<open>Modelled from the spec: \<^verbatim>\<open>extract_list_property\<close> extracts a raw
  variable-length list property by concatenation.\<close>

definition extract_list_property :: "'f PLYElement \<Rightarrow> nat \<Rightarrow> 32 word list" where
  "extract_list_property e p = concat (list_rows e p)"

text \<open>Modelled from the spec: \<^verbatim>\<open>sum_of_list_counts\<close> sums the lengths of all list
  rows of a property; the result is a \<^verbatim>\<open>uint32_t\<close>.\<close>

definition sum_of_list_counts :: "'f PLYElement \<Rightarrow> nat \<Rightarrow> 32 word" where
  "sum_of_list_counts e p = of_nat (sum_list (map length (list_rows e p)))"

text \<open>
  \<^verbatim>\<open>new T[n]\<close> followed by an extract call of the reader: the reader writes \<open>data\<close>
  from the start of the array. Writing more than \<open>n\<close> values runs past the end.
\<close>

definition extract_into :: "nat \<Rightarrow> 'a list \<Rightarrow> fault + 'a list" where
  "extract_into n data = (if length data \<le> n then Inr data else Inl BufferOverrun)"

definition extract_optional ::
  "nat \<Rightarrow> 'a list option \<Rightarrow> 'a list option \<Rightarrow> fault + 'a list option" where
  "extract_optional n found old =
     (case found of
        None \<Rightarrow> Inr old
      | Some data \<Rightarrow>
          (case extract_into n data of Inl f \<Rightarrow> Inl f | Inr buf \<Rightarrow> Inr (Some buf)))"

section \<open>\<^verbatim>\<open>parse_file_with_miniply\<close>\<close>

record 'f parse_state =
  trimesh :: "'f TriMesh"
  gotVerts :: bool
  gotFaces :: bool
  diagnostics :: "string list"

text \<open>How one pass through the body of the \<^verbatim>\<open>while\<close> loop ends: at a
  \<^verbatim>\<open>break\<close>, or at \<^verbatim>\<open>reader.next_element()\<close>.\<close>

datatype 'a flow = Break 'a | Next 'a

definition ordering_error :: string where
  "ordering_error = ''Error: face data needing triangulation found before vertex data.''"

definition load_strips_error :: string where
  "load_strips_error = ''Error: failed to load tri strips.''"

definition strips_property_error :: string where
  "strips_property_error =
     ''Error: couldn't find 'vertex_indices' property for the 'tristrips' element.''"

definition log_error :: "string \<Rightarrow> 'f parse_state \<Rightarrow> 'f parse_state" where
  "log_error msg st = st\<lparr>diagnostics := diagnostics st @ [msg]\<rparr>"

text \<open>Lines 145 to 163: the vertex element.\<close>

definition vertex_element :: "'f PLYElement \<Rightarrow> 'f parse_state \<Rightarrow> fault + 'f parse_state flow" where
  "vertex_element e st =
     (case (if load_element e then find_pos e else None) of
        None \<Rightarrow> Inr (Break st)
      | Some posData \<Rightarrow>
          (let n = num_rows e; m = trimesh st in
           case extract_into (unat (n * 3)) posData of
             Inl f \<Rightarrow> Inl f
           | Inr posBuf \<Rightarrow>
           (case extract_optional (unat (n * 3)) (find_normal e) (normal m) of
             Inl f \<Rightarrow> Inl f
           | Inr normalBuf \<Rightarrow>
           (case extract_optional (unat (n * 2)) (find_texcoord e) (uv m) of
             Inl f \<Rightarrow> Inl f
           | Inr uvBuf \<Rightarrow>
           (case extract_optional (unat (n * 4)) (find_color_rgba e) (color m) of
             Inl f \<Rightarrow> Inl f
           | Inr colorBuf \<Rightarrow>
               Inr (Next (st\<lparr>trimesh := m\<lparr>numVerts := n, pos := Some posBuf,
                                            normal := normalBuf, uv := uvBuf,
                                            color := colorBuf\<rparr>,
                              gotVerts := True\<rparr>)))))))"

text \<open>The three places that fill the index array and set \<open>gotFaces\<close>.\<close>

definition set_indices ::
  "32 word \<Rightarrow> 32 word list \<Rightarrow> 'f parse_state \<Rightarrow> fault + 'f parse_state flow" where
  "set_indices n data st =
     (case extract_into (unat n) data of
        Inl f \<Rightarrow> Inl f
      | Inr buf \<Rightarrow>
          Inr (Next (st\<lparr>trimesh := (trimesh st)\<lparr>numIndices := n, indices := buf\<rparr>,
                         gotFaces := True\<rparr>)))"

text \<open>Lines 166 to 195: the face element. \<open>faceIdxs\<close> names the list property that
  the fast path coerced to three columns; it is \<open>None\<close> as long as nothing was written
  to the array \<^verbatim>\<open>faceIdxs\<close>.\<close>

definition face_element ::
  "bool \<Rightarrow> nat option \<Rightarrow> 'f PLYElement \<Rightarrow> 'f parse_state \<Rightarrow> fault + 'f parse_state flow" where
  "face_element assumeTriangles faceIdxs e st =
     (if \<not> load_element e then Inr (Break st)
      else if assumeTriangles then
        (case faceIdxs of
           None \<Rightarrow> Inl IndeterminateRead
         | Some p \<Rightarrow> set_indices (num_rows e * 3) (extract_fixed_size e p) st)
      else
        (case find_indices e of
           None \<Rightarrow> Inr (Break st)
         | Some propIdx \<Rightarrow>
             (let polys = requires_triangulation e propIdx in
              if polys \<and> \<not> gotVerts st then Inr (Break (log_error ordering_error st))
              else if polys then
                set_indices (num_triangles e propIdx * 3)
                  (extract_triangles e propIdx (pos (trimesh st)) (numVerts (trimesh st))) st
              else
                set_indices (num_rows e * 3) (extract_list_property e propIdx) st)))"

text \<open>Lines 198 to 215: the triangle strips element.\<close>

definition tristrips_element :: "'f PLYElement \<Rightarrow> 'f parse_state \<Rightarrow> fault + 'f parse_state flow" where
  "tristrips_element e st =
     (if \<not> load_element e then Inr (Break (log_error load_strips_error st))
      else
        (case find_property e ''vertex_indices'' of
           None \<Rightarrow> Inr (Break (log_error strips_property_error st))
         | Some propIdx \<Rightarrow>
             set_indices (sum_of_list_counts e propIdx) (extract_list_property e propIdx)
               (st\<lparr>trimesh := (trimesh st)\<lparr>topology := Strip, hasTerminator := True,
                                              terminator := - 1\<rparr>\<rparr>)))"

text \<open>Lines 144 to 216: the body of the loop, for the current element.\<close>

definition loop_body ::
  "bool \<Rightarrow> nat option \<Rightarrow> 'f PLYElement \<Rightarrow> 'f parse_state \<Rightarrow> fault + 'f parse_state flow" where
  "loop_body assumeTriangles faceIdxs e st =
     (if name e = kPLYVertexElement then vertex_element e st
      else if \<not> gotFaces st \<and> name e = kPLYFaceElement then
        face_element assumeTriangles faceIdxs e st
      else if \<not> gotFaces st \<and> name e = ''tristrips'' then tristrips_element e st
      else Inr (Next st))"

text \<open>Line 143: \<^verbatim>\<open>while (reader.has_element() && (!gotVerts || !gotFaces))\<close>, over
  the elements from the current one on.\<close>

fun element_loop ::
  "bool \<Rightarrow> nat option \<Rightarrow> 'f PLYElement list \<Rightarrow> 'f parse_state \<Rightarrow> fault + 'f parse_state" where
  "element_loop assumeTriangles faceIdxs [] st = Inr st"
| "element_loop assumeTriangles faceIdxs (e # es) st =
     (if \<not> gotVerts st \<or> \<not> gotFaces st then
        (case loop_body assumeTriangles faceIdxs e st of
           Inl f \<Rightarrow> Inl f
         | Inr (Break st') \<Rightarrow> Inr st'
         | Inr (Next st') \<Rightarrow> element_loop assumeTriangles faceIdxs es st')
      else Inr st)"

text \<open>Lines 220 to 225. The result is the mesh, or \<open>None\<close> for the null pointer, with
  what was printed to \<^verbatim>\<open>stderr\<close>.\<close>

definition finish :: "'f parse_state \<Rightarrow> fault + 'f TriMesh option \<times> string list" where
  "finish st =
     (if \<not> gotVerts st \<or> \<not> gotFaces st then Inr (None, diagnostics st)
      else
        (case all_indices_valid (trimesh st) of
           Inl f \<Rightarrow> Inl f
         | Inr ok \<Rightarrow> Inr (if ok then Some (trimesh st) else None, diagnostics st)))"

definition initial_state :: "'f parse_state" where
  "initial_state =
     \<lparr>trimesh = new_TriMesh, gotVerts = False, gotFaces = False, diagnostics = []\<rparr>"

text \<open>Lines 142 to 225, once the fast path is settled.\<close>

definition extract_mesh ::
  "'f PLYReader \<Rightarrow> bool \<Rightarrow> nat option \<Rightarrow> fault + 'f TriMesh option \<times> string list" where
  "extract_mesh reader assumeTriangles faceIdxs =
     (case element_loop assumeTriangles faceIdxs (elements reader) initial_state of
        Inl f \<Rightarrow> Inl f
      | Inr st \<Rightarrow> finish st)"

text \<open>Lines 125 to 137 and the call of the rest. The converted columns are written to
  \<^verbatim>\<open>faceIdxs\<close> only when the coercion succeeds.\<close>

definition parse_file_with_miniply ::
  "'f PLYReader \<Rightarrow> bool \<Rightarrow> fault + 'f TriMesh option \<times> string list" where
  "parse_file_with_miniply reader assumeTriangles =
     (if \<not> valid reader then Inr (None, [])
      else if assumeTriangles then
        (case find_element reader kPLYFaceElement of
           None \<Rightarrow> Inr (None, [])
         | Some faceElem \<Rightarrow>
             (let listPropIdx = find_property faceElem ''vertex_indices'';
                  assumeTriangles' = convert_list_to_fixed_size faceElem listPropIdx 3
              in extract_mesh reader assumeTriangles'
                   (if assumeTriangles' then listPropIdx else None)))
      else extract_mesh reader False None)"

section \<open>\<^verbatim>\<open>main\<close>\<close>

text \<open>
  C strings are lists of characters without the terminating zero. The lengths are taken
  as \<^verbatim>\<open>int\<close> by the program; they are below \<open>2 ^ 31\<close> for every string a process can
  be started with, and the model computes with them as integers.
\<close>

definition has_extension :: "string \<Rightarrow> string \<Rightarrow> bool" where
  "has_extension filename ext =
     (let j = int (length ext);
          i = int (length filename) - j
      in if i \<le> 0 \<or> filename ! nat (i - 1) \<noteq> CHR ''.'' then False
         else drop (nat i) filename = ext)"

text \<open>
  The world outside the program: \<open>open_ply\<close> is what \<^verbatim>\<open>miniply::PLYReader\<close> makes
  of a file name; \<open>fopen_lines\<close> is \<open>None\<close> when \<^verbatim>\<open>fopen\<close> returns the null pointer,
  and otherwise the strings that the successive calls of \<^verbatim>\<open>fgets\<close> leave in the
  buffer until it returns the null pointer.
\<close>

record 'f environment =
  open_ply :: "string \<Rightarrow> 'f PLYReader"
  fopen_lines :: "string \<Rightarrow> string list option"

text \<open>Lines 247 to 252.\<close>

fun find_assume_triangles :: "string list \<Rightarrow> bool" where
  "find_assume_triangles [] = False"
| "find_assume_triangles (arg # args) =
     (if arg = ''--assume-triangles'' then True else find_assume_triangles args)"

text \<open>Line 256: \<^verbatim>\<open>argv[i][0] == '-'\<close>; the first character of the empty string is
  the terminating zero.\<close>

definition starts_with_dash :: "string \<Rightarrow> bool" where
  "starts_with_dash arg = (case arg of [] \<Rightarrow> False | c # _ \<Rightarrow> c = CHR ''-'')"

text \<open>Lines 264 to 266, on the string just pushed: \<^verbatim>\<open>back()\<close> of an empty string is
  undefined.\<close>

function strip_newlines :: "string \<Rightarrow> fault + string" where
  "strip_newlines s =
     (if s = [] then Inl EmptyStringBack
      else if last s = CHR 0x0A then strip_newlines (butlast s)
      else Inr s)"
  by pat_completeness auto
termination
  by (relation "measure length") auto

text \<open>Lines 262 to 267: the lines of one list file.\<close>

fun read_list_file :: "string list \<Rightarrow> string list \<Rightarrow> fault + string list" where
  "read_list_file [] filenames = Inr filenames"
| "read_list_file (line # lines) filenames =
     (case strip_newlines line of
        Inl f \<Rightarrow> Inl f
      | Inr s \<Rightarrow> read_list_file lines (filenames @ [s]))"

text \<open>Lines 255 to 277, over \<^verbatim>\<open>argv[1]\<close> to \<^verbatim>\<open>argv[argc - 1]\<close>. The state is the
  vector \<open>filenames\<close> with the lines printed to \<^verbatim>\<open>stderr\<close>.\<close>

fun collect_filenames ::
  "'f environment \<Rightarrow> string list \<Rightarrow> string list \<times> string list
     \<Rightarrow> fault + string list \<times> string list" where
  "collect_filenames env [] acc = Inr acc"
| "collect_filenames env (arg # args) (filenames, err) =
     (if starts_with_dash arg then collect_filenames env args (filenames, err)
      else if has_extension arg ''txt'' then
        (case fopen_lines env arg of
           Some lines \<Rightarrow>
             (case read_list_file lines filenames of
                Inl f \<Rightarrow> Inl f
              | Inr filenames' \<Rightarrow> collect_filenames env args (filenames', err))
         | None \<Rightarrow> collect_filenames env args (filenames, err @ [''Failed to open '' @ arg]))
      else collect_filenames env args (filenames @ [arg], err))"

text \<open>Lines 284 to 290.\<close>

definition max_width :: "string list \<Rightarrow> int" where
  "max_width filenames =
     foldl (\<lambda>width filename.
              let newWidth = int (length filename)
              in if newWidth > width then newWidth else width) 0 filenames"

text \<open>
  What goes to \<^verbatim>\<open>stdout\<close>, line by line. The elapsed times are not part of the
  model: a report line keeps the width, the file name and the outcome.
\<close>

datatype out_line =
    Report int string bool
  | Separator
  | TotalTime
  | PassedCount int
  | FailedCount int

datatype exit_status = EXIT_SUCCESS | EXIT_FAILURE

record batch_state =
  numPassed :: int
  numFailed :: int
  stdout :: "out_line list"
  stderr :: "string list"

definition INT_MAX :: int where
  "INT_MAX = 2147483647"

text \<open>Lines 295 to 325; the diagnostics of the parser go to the same \<^verbatim>\<open>stderr\<close>.\<close>

fun batch_loop ::
  "'f environment \<Rightarrow> bool \<Rightarrow> int \<Rightarrow> string list \<Rightarrow> batch_state \<Rightarrow> fault + batch_state" where
  "batch_loop env assumeTriangles width [] st = Inr st"
| "batch_loop env assumeTriangles width (filename # rest) st =
     (case parse_file_with_miniply (open_ply env filename) assumeTriangles of
        Inl f \<Rightarrow> Inl f
      | Inr (mesh, diag) \<Rightarrow>
          (let ok = (mesh \<noteq> None);
               st' = st\<lparr>stdout := stdout st @ [Report width filename ok], stderr := stderr st @ diag\<rparr>
           in if \<not> ok then
                (if numFailed st' = INT_MAX then Inl SignedOverflow
                 else batch_loop env assumeTriangles width rest
                        (st'\<lparr>numFailed := numFailed st' + 1\<rparr>))
              else
                (if numPassed st' = INT_MAX then Inl SignedOverflow
                 else batch_loop env assumeTriangles width rest
                        (st'\<lparr>numPassed := numPassed st' + 1\<rparr>))))"

text \<open>\<^verbatim>\<open>main\<close>, on the arguments after the program name. The result is the exit status
  with the lines of \<^verbatim>\<open>stdout\<close> and of \<^verbatim>\<open>stderr\<close>.\<close>

definition main ::
  "'f environment \<Rightarrow> string list \<Rightarrow> fault + exit_status \<times> out_line list \<times> string list" where
  "main env argv =
     (let assumeTriangles = find_assume_triangles argv in
      case collect_filenames env argv ([], []) of
        Inl f \<Rightarrow> Inl f
      | Inr (filenames, errs) \<Rightarrow>
          if filenames = [] then Inr (EXIT_SUCCESS, [], errs @ [''No input files provided.''])
          else
            (case batch_loop env assumeTriangles (max_width filenames) filenames
                    \<lparr>numPassed = 0, numFailed = 0, stdout = [], stderr = errs\<rparr> of
               Inl f \<Rightarrow> Inl f
             | Inr st \<Rightarrow>
                 Inr (if numFailed st > 0 then EXIT_FAILURE else EXIT_SUCCESS,
                      stdout st @ [Separator, TotalTime, PassedCount (numPassed st),
                                FailedCount (numFailed st)],
                      stderr st)))"

section \<open>Example files\<close>

text \<open>An element that loads and has no property; the examples below refine it.\<close>

definition element_named :: "string \<Rightarrow> 32 word \<Rightarrow> nat PLYElement" where
  "element_named nm n =
     \<lparr>name = nm, load_element = True, num_rows = n,
      find_pos = None, find_normal = None, find_texcoord = None, find_color_rgba = None,
      find_property = (\<lambda>_. None), find_indices = None, list_rows = (\<lambda>_. []),
      requires_triangulation = (\<lambda>_. False), num_triangles = (\<lambda>_. 0),
      extract_triangles = (\<lambda>_ _ _. [])\<rparr>"

definition vertex_example :: "32 word \<Rightarrow> nat list \<Rightarrow> nat PLYElement" where
  "vertex_example n coords = (element_named ''vertex'' n)\<lparr>find_pos := Some coords\<rparr>"

text \<open>An element with one list property, named \<^verbatim>\<open>vertex_indices\<close>, at index 0.\<close>

definition list_example :: "string \<Rightarrow> 32 word list list \<Rightarrow> nat PLYElement" where
  "list_example nm rows =
     (element_named nm (of_nat (length rows)))
       \<lparr>find_property := (\<lambda>s. if s = ''vertex_indices'' then Some 0 else None),
        find_indices := Some 0,
        list_rows := (\<lambda>p. if p = 0 then rows else [])\<rparr>"

text \<open>One quadrilateral, which the reader splits into two triangles.\<close>

definition quad_example :: "nat PLYElement" where
  "quad_example =
     (list_example ''face'' [[0, 1, 2, 3]])
       \<lparr>requires_triangulation := (\<lambda>_. True), num_triangles := (\<lambda>_. 2),
        extract_triangles := (\<lambda>_ _ _. [0, 1, 2, 0, 2, 3])\<rparr>"

definition file_of :: "nat PLYElement list \<Rightarrow> nat PLYReader" where
  "file_of es = \<lparr>valid = True, elements = es\<rparr>"

definition strip_mesh :: "nat TriMesh" where
  "strip_mesh =
     \<lparr>pos = Some [0, 0, 0, 1, 0, 0, 0, 1, 0], normal = None, uv = None, color = None,
      numVerts = 3, indices = [0, 1, 2], numIndices = 3,
      topology = Strip, hasTerminator = True, terminator = - 1\<rparr>"

definition strip_file :: "nat PLYReader" where
  "strip_file =
     file_of [vertex_example 3 [0, 0, 0, 1, 0, 0, 0, 1, 0], list_example ''tristrips'' [[0, 1, 2]]]"

definition two_vertex_file :: "nat PLYReader" where
  "two_vertex_file =
     file_of [vertex_example 1 [5, 5, 5], vertex_example 3 [0, 0, 0, 1, 0, 0, 0, 1, 0],
              list_example ''face'' [[0, 1, 2]]]"

definition first_vertex_file :: "nat PLYReader" where
  "first_vertex_file = file_of [vertex_example 1 [5, 5, 5], list_example ''face'' [[0, 1, 2]]]"

definition quad_file :: "nat PLYReader" where
  "quad_file = file_of [vertex_example 4 [0, 0, 0, 1, 0, 0, 1, 1, 0, 0, 1, 0], quad_example]"

definition quad_mesh :: "nat TriMesh" where
  "quad_mesh =
     \<lparr>pos = Some [0, 0, 0, 1, 0, 0, 1, 1, 0, 0, 1, 0], normal = None, uv = None, color = None,
      numVerts = 4, indices = [0, 1, 2, 0, 2, 3], numIndices = 6,
      topology = Soup, hasTerminator = False, terminator = - 1\<rparr>"

definition quad_first_file :: "nat PLYReader" where
  "quad_first_file = file_of [quad_example, vertex_example 4 [0, 0, 0, 1, 0, 0, 1, 1, 0, 0, 1, 0]]"

definition face_first_file :: "nat PLYReader" where
  "face_first_file =
     file_of [list_example ''face'' [[0, 1, 2]], vertex_example 3 [0, 0, 0, 1, 0, 0, 0, 1, 0]]"

definition soup_mesh :: "nat TriMesh" where
  "soup_mesh =
     \<lparr>pos = Some [0, 0, 0, 1, 0, 0, 0, 1, 0], normal = None, uv = None, color = None,
      numVerts = 3, indices = [0, 1, 2], numIndices = 3,
      topology = Soup, hasTerminator = False, terminator = - 1\<rparr>"

definition strips_first_file :: "nat PLYReader" where
  "strips_first_file =
     file_of [list_example ''tristrips'' [[0, 1, 2]], quad_example,
              vertex_example 4 [0, 0, 0, 1, 0, 0, 1, 1, 0, 0, 1, 0]]"

definition strips_first_mesh :: "nat TriMesh" where
  "strips_first_mesh =
     \<lparr>pos = Some [0, 0, 0, 1, 0, 0, 1, 1, 0, 0, 1, 0], normal = None, uv = None, color = None,
      numVerts = 4, indices = [0, 1, 2], numIndices = 3,
      topology = Strip, hasTerminator = True, terminator = - 1\<rparr>"

text \<open>A world with two mesh files and two list files.\<close>

definition example_env :: "nat environment" where
  "example_env =
     \<lparr>open_ply = (\<lambda>filename.
         if filename = ''strip.ply'' then strip_file
         else if filename = ''bad.ply'' then first_vertex_file
         else \<lparr>valid = False, elements = []\<rparr>),
      fopen_lines = (\<lambda>filename.
         if filename = ''list.txt'' then Some [''strip.ply'' @ [CHR 0x0A], ''bad.ply'']
         else if filename = ''-l.txt'' then Some [''strip.ply'' @ [CHR 0x0A]]
         else None)\<rparr>"

section \<open>Notions used to state the properties\<close>

text \<open>The state a pass through the loop body leaves, however it ends.\<close>

fun flow_state :: "'a flow \<Rightarrow> 'a" where
  "flow_state (Break s) = s"
| "flow_state (Next s) = s"

definition face_fields :: "'f TriMesh \<Rightarrow> 32 word list \<times> 32 word \<times> Topology \<times> bool \<times> 32 word" where
  "face_fields m = (indices m, numIndices m, topology m, hasTerminator m, terminator m)"

text \<open>An index is acceptable when it is the terminator and terminators are looked for, or
  when it names a vertex.\<close>

definition index_ok :: "bool \<Rightarrow> 'f TriMesh \<Rightarrow> 32 word \<Rightarrow> bool" where
  "index_ok c m x = ((c \<and> x = terminator m) \<or> (0 \<le> sint x \<and> x < numVerts m))"

text \<open>The state of the loop once a face element that needs no triangulation has been
  consumed ahead of every vertex element.\<close>

definition faces_first_state :: "'f PLYElement \<Rightarrow> nat \<Rightarrow> 'f parse_state" where
  "faces_first_state faceElem propIdx =
     \<lparr>trimesh = new_TriMesh\<lparr>numIndices := num_rows faceElem * 3,
                             indices := extract_list_property faceElem propIdx\<rparr>,
      gotVerts = False, gotFaces = True, diagnostics = []\<rparr>"

text \<open>
  The fast path is kept when it was asked for and the coercion of the face element
  succeeded. The arrays of a vertex element fit when the reader writes no more values
  than the program allocated. \<open>faces_first_mesh\<close> is the mesh built from a face element
  that needs no triangulation and a vertex element that comes after it; \<open>validated\<close>
  is lines 220 to 225 on a mesh at which both elements were found and nothing was
  printed.
\<close>

definition fast_path_kept :: "bool \<Rightarrow> 'f PLYElement \<Rightarrow> bool" where
  "fast_path_kept assumeTriangles faceElem =
     (assumeTriangles \<and>
      convert_list_to_fixed_size faceElem (find_property faceElem ''vertex_indices'') 3)"

definition buffers_fit :: "'f PLYElement \<Rightarrow> bool" where
  "buffers_fit e =
     ((case find_pos e of None \<Rightarrow> True | Some d \<Rightarrow> length d \<le> unat (num_rows e * 3)) \<and>
      (case find_normal e of None \<Rightarrow> True | Some d \<Rightarrow> length d \<le> unat (num_rows e * 3)) \<and>
      (case find_texcoord e of None \<Rightarrow> True | Some d \<Rightarrow> length d \<le> unat (num_rows e * 2)) \<and>
      (case find_color_rgba e of None \<Rightarrow> True | Some d \<Rightarrow> length d \<le> unat (num_rows e * 4)))"

definition faces_first_mesh :: "'f PLYElement \<Rightarrow> nat \<Rightarrow> 'f PLYElement \<Rightarrow> 'f TriMesh" where
  "faces_first_mesh faceElem propIdx vertexElem =
     \<lparr>pos = find_pos vertexElem, normal = find_normal vertexElem,
      uv = find_texcoord vertexElem, color = find_color_rgba vertexElem,
      numVerts = num_rows vertexElem,
      indices = concat (list_rows faceElem propIdx), numIndices = num_rows faceElem * 3,
      topology = Soup, hasTerminator = False, terminator = - 1\<rparr>"

definition validated :: "'f TriMesh \<Rightarrow> fault + 'f TriMesh option \<times> string list" where
  "validated m =
     (case all_indices_valid m of
        Inl f \<Rightarrow> Inl f
      | Inr ok \<Rightarrow> Inr (if ok then Some m else None, []))"







text \<open>The outcome of one file of the batch, its diagnostics, and whether the
  extraction runs without a fault; the report lines and the two tallies of a batch.\<close>

definition passed :: "'f environment \<Rightarrow> bool \<Rightarrow> string \<Rightarrow> bool" where
  "passed env assumeTriangles filename =
     (case parse_file_with_miniply (open_ply env filename) assumeTriangles of
        Inr (Some m, d) \<Rightarrow> True
      | _ \<Rightarrow> False)"

definition file_diagnostics :: "'f environment \<Rightarrow> bool \<Rightarrow> string \<Rightarrow> string list" where
  "file_diagnostics env assumeTriangles filename =
     (case parse_file_with_miniply (open_ply env filename) assumeTriangles of
        Inr (m, d) \<Rightarrow> d
      | Inl f \<Rightarrow> [])"

definition no_fault :: "'f environment \<Rightarrow> bool \<Rightarrow> string \<Rightarrow> bool" where
  "no_fault env assumeTriangles filename =
     (case parse_file_with_miniply (open_ply env filename) assumeTriangles of
        Inr r \<Rightarrow> True
      | Inl f \<Rightarrow> False)"

definition reports :: "'f environment \<Rightarrow> bool \<Rightarrow> string list \<Rightarrow> out_line list" where
  "reports env assumeTriangles filenames =
     map (\<lambda>filename. Report (max_width filenames) filename (passed env assumeTriangles filename))
       filenames"

definition count_passed :: "'f environment \<Rightarrow> bool \<Rightarrow> string list \<Rightarrow> int" where
  "count_passed env assumeTriangles filenames =
     int (length (filter (passed env assumeTriangles) filenames))"

definition count_failed :: "'f environment \<Rightarrow> bool \<Rightarrow> string list \<Rightarrow> int" where
  "count_failed env assumeTriangles filenames =
     int (length (filter (\<lambda>filename. \<not> passed env assumeTriangles filename) filenames))"

section \<open>Index validation\<close>

declare indices_loop.simps [simp del]

lemma unat_succ_less: "(i :: 32 word) < n \<Longrightarrow> unat (i + 1) = Suc (unat i)"
proof -
  assume "i < n"
  then have "unat i < unat n" by (simp add: word_less_nat_alt)
  moreover have "unat n < 2 ^ 32" using unsigned_less [of n, where ?'a = nat] by simp
  ultimately have "unat i + unat (1 :: 32 word) < 2 ^ LENGTH(32)" by simp
  then have "unat (i + 1) = unat i + unat (1 :: 32 word)" by (simp only: unat_add_lem)
  then show ?thesis by simp
qed

lemma indices_loop_True:
  "indices_loop c m i = Inr True \<Longrightarrow> unat i \<le> k \<Longrightarrow> k < unat (numIndices m) \<Longrightarrow>
     k < length (indices m) \<and> index_ok c m (indices m ! k)"
proof (induction c m i rule: indices_loop.induct)
  case (1 c m i)
  from "1.prems" have lt: "i < numIndices m"
    by (simp add: word_less_nat_alt)
  then have suc: "unat (i + 1) = Suc (unat i)"
    by (rule unat_succ_less)
  from "1.prems"(1) lt have inb: "unat i < length (indices m)"
    by (subst (asm) indices_loop.simps) (simp split: if_splits)
  show ?case
  proof (cases "k = unat i")
    case True
    from "1.prems"(1) lt inb have "index_ok c m (indices m ! unat i)"
      by (subst (asm) indices_loop.simps) (auto simp: index_ok_def split: if_splits)
    with True inb show ?thesis by simp
  next
    case False
    with "1.prems" suc have le: "unat (i + 1) \<le> k" by simp
    show ?thesis
    proof (cases "c \<and> indices m ! unat i = terminator m")
      case True
      with "1.prems"(1) lt inb have "indices_loop c m (i + 1) = Inr True"
        by (subst (asm) indices_loop.simps) (simp split: if_splits)
      with "1.IH"(1) lt inb True le "1.prems"(3) show ?thesis by simp
    next
      case False
      with "1.prems"(1) lt inb
      have bad: "\<not> (sint (indices m ! unat i) < 0 \<or> numVerts m \<le> indices m ! unat i)"
        and rec: "indices_loop c m (i + 1) = Inr True"
        by (subst (asm) indices_loop.simps, simp split: if_splits)+
      with "1.IH"(2) lt inb False le "1.prems"(3) show ?thesis by simp
    qed
  qed
qed

lemma all_indices_valid_True:
  assumes "all_indices_valid m = Inr True" and "k < unat (numIndices m)"
  shows "k < length (indices m) \<and>
         ((topology m \<noteq> Soup \<and> hasTerminator m \<and> indices m ! k = terminator m) \<or>
          (0 \<le> sint (indices m ! k) \<and> sint (indices m ! k) < uint (numVerts m)))"
proof -
  let ?c = "topology m \<noteq> Soup \<and> hasTerminator m \<and>
             (sint (terminator m) < 0 \<or> sint (terminator m) \<ge> sint (numVerts m))"
  from assms(1) have "indices_loop ?c m 0 = Inr True"
    by (simp add: all_indices_valid_def)
  from indices_loop_True [OF this _ assms(2)]
  have len: "k < length (indices m)" and ok: "index_ok ?c m (indices m ! k)"
    by simp_all
  let ?x = "indices m ! k"
  have "0 \<le> sint ?x \<Longrightarrow> ?x < numVerts m \<Longrightarrow> sint ?x < uint (numVerts m)"
  proof -
    assume nn: "0 \<le> sint ?x" and "?x < numVerts m"
    then have "uint ?x < uint (numVerts m)" by (simp add: word_less_def)
    moreover have "sint ?x < 2 ^ 32"
      using sint_lt [of ?x] by simp
    with nn have "take_bit 32 (sint ?x) = sint ?x"
      by (simp add: take_bit_int_eq_self)
    then have "sint ?x = uint ?x"
      using uint_sint [of ?x] by simp
    ultimately show ?thesis by simp
  qed
  with len ok show ?thesis by (auto simp: index_ok_def)
qed

section \<open>The element loop\<close>

lemma vertex_element_Break: "vertex_element e st = Inr (Break st') \<Longrightarrow> st' = st"
  by (auto simp: vertex_element_def Let_def split: option.splits sum.splits if_splits)

lemma vertex_element_Next:
  "vertex_element e st = Inr (Next st') \<Longrightarrow>
     gotVerts st' \<and> gotFaces st' = gotFaces st \<and> diagnostics st' = diagnostics st \<and>
     face_fields (trimesh st') = face_fields (trimesh st)"
  by (auto simp: vertex_element_def Let_def face_fields_def split: option.splits sum.splits if_splits)

lemma vertex_element_keeps:
  "vertex_element e st = Inr fl \<Longrightarrow>
     gotFaces (flow_state fl) = gotFaces st \<and>
     diagnostics (flow_state fl) = diagnostics st \<and>
     face_fields (trimesh (flow_state fl)) = face_fields (trimesh st)"
  by (cases fl) (auto dest: vertex_element_Break vertex_element_Next)

lemma set_indices_Inr:
  "set_indices n data st = Inr fl \<Longrightarrow>
     length data \<le> unat n \<and>
     fl = Next (st\<lparr>trimesh := (trimesh st)\<lparr>numIndices := n, indices := data\<rparr>, gotFaces := True\<rparr>)"
  by (auto simp: set_indices_def extract_into_def split: if_splits)

lemma face_element_gotVerts:
  "face_element a fi e st = Inr fl \<Longrightarrow> gotVerts (flow_state fl) = gotVerts st"
  by (auto simp: face_element_def Let_def log_error_def split: option.splits if_splits
           dest!: set_indices_Inr)

lemma tristrips_element_gotVerts:
  "tristrips_element e st = Inr fl \<Longrightarrow> gotVerts (flow_state fl) = gotVerts st"
  by (auto simp: tristrips_element_def log_error_def split: option.splits if_splits
           dest!: set_indices_Inr)

lemma loop_body_gotVerts:
  "loop_body a fi e st = Inr fl \<Longrightarrow> gotVerts (flow_state fl) \<Longrightarrow>
     gotVerts st \<or> name e = kPLYVertexElement"
  by (auto simp: loop_body_def split: if_splits
           dest: face_element_gotVerts tristrips_element_gotVerts)

lemma loop_body_gotFaces:
  "loop_body a fi e st = Inr fl \<Longrightarrow> gotFaces (flow_state fl) \<Longrightarrow>
     gotFaces st \<or> name e = kPLYFaceElement \<or> name e = ''tristrips''"
  by (auto simp: loop_body_def split: if_splits dest: vertex_element_keeps)

lemma element_loop_gotVerts:
  "element_loop a fi es st = Inr st' \<Longrightarrow> gotVerts st' \<Longrightarrow>
     gotVerts st \<or> (\<exists>e\<in>set es. name e = kPLYVertexElement)"
proof (induction es arbitrary: st)
  case Nil
  then show ?case by simp
next
  case (Cons e es)
  show ?case
  proof (cases "\<not> gotVerts st \<or> \<not> gotFaces st")
    case False
    then show ?thesis by simp
  next
    case True
    with Cons.prems(1) obtain fl where body: "loop_body a fi e st = Inr fl"
      by (auto split: sum.splits)
    show ?thesis
    proof (cases fl)
      case (Break s)
      with body True Cons.prems have "gotVerts (flow_state fl)" by simp
      with body show ?thesis by (auto dest: loop_body_gotVerts)
    next
      case (Next s)
      with body True Cons.prems(1) have "element_loop a fi es s = Inr st'" by simp
      from Cons.IH [OF this Cons.prems(2)]
      have "gotVerts s \<or> (\<exists>e\<in>set es. name e = kPLYVertexElement)" .
      with body Next show ?thesis by (auto dest: loop_body_gotVerts)
    qed
  qed
qed

lemma element_loop_gotFaces:
  "element_loop a fi es st = Inr st' \<Longrightarrow> gotFaces st' \<Longrightarrow>
     gotFaces st \<or> (\<exists>e\<in>set es. name e = kPLYFaceElement \<or> name e = ''tristrips'')"
proof (induction es arbitrary: st)
  case Nil
  then show ?case by simp
next
  case (Cons e es)
  show ?case
  proof (cases "\<not> gotVerts st \<or> \<not> gotFaces st")
    case False
    then show ?thesis by simp
  next
    case True
    with Cons.prems(1) obtain fl where body: "loop_body a fi e st = Inr fl"
      by (auto split: sum.splits)
    show ?thesis
    proof (cases fl)
      case (Break s)
      with body True Cons.prems have "gotFaces (flow_state fl)" by simp
      with body show ?thesis by (auto dest: loop_body_gotFaces)
    next
      case (Next s)
      with body True Cons.prems(1) have "element_loop a fi es s = Inr st'" by simp
      from Cons.IH [OF this Cons.prems(2)]
      have "gotFaces s \<or> (\<exists>e\<in>set es. name e = kPLYFaceElement \<or> name e = ''tristrips'')" .
      with body Next show ?thesis by (auto dest: loop_body_gotFaces)
    qed
  qed
qed

lemma finish_Some:
  "finish st = Inr (Some m, d) \<Longrightarrow>
     gotVerts st \<and> gotFaces st \<and> m = trimesh st \<and> d = diagnostics st \<and>
     all_indices_valid m = Inr True"
  by (auto simp: finish_def split: if_splits sum.splits)

lemma extract_mesh_Some:
  "extract_mesh reader a fi = Inr (Some m, d) \<Longrightarrow>
     \<exists>st. element_loop a fi (elements reader) initial_state = Inr st \<and>
          gotVerts st \<and> gotFaces st \<and> m = trimesh st \<and> d = diagnostics st \<and>
          all_indices_valid m = Inr True"
  by (auto simp: extract_mesh_def split: sum.splits dest: finish_Some)

lemma parse_Some:
  "parse_file_with_miniply reader a = Inr (Some m, d) \<Longrightarrow>
     \<exists>a' fi st. element_loop a' fi (elements reader) initial_state = Inr st \<and>
          gotVerts st \<and> gotFaces st \<and> m = trimesh st \<and> d = diagnostics st \<and>
          all_indices_valid m = Inr True"
  unfolding parse_file_with_miniply_def Let_def
  by (auto split: if_splits option.splits dest!: extract_mesh_Some)

lemma element_loop_done: "gotVerts st \<Longrightarrow> gotFaces st \<Longrightarrow> element_loop a fi es st = Inr st"
  by (cases es) simp_all

lemma element_loop_skip:
  assumes "\<forall>e\<in>set pre. name e \<noteq> kPLYVertexElement \<and> name e \<noteq> kPLYFaceElement \<and>
                        name e \<noteq> ''tristrips''"
  shows "element_loop a fi (pre @ es) st = element_loop a fi es st"
  using assms
proof (induction pre)
  case Nil
  then show ?case by simp
next
  case (Cons e pre)
  show ?case
  proof (cases "\<not> gotVerts st \<or> \<not> gotFaces st")
    case True
    from Cons.prems have "loop_body a fi e st = Inr (Next st)"
      by (simp add: loop_body_def)
    with True Cons show ?thesis by simp
  next
    case False
    then show ?thesis by (simp add: element_loop_done)
  qed
qed

lemma find_first_named:
  "\<forall>e\<in>set pre. name e \<noteq> nm \<Longrightarrow> name x = nm \<Longrightarrow>
     find (\<lambda>e. name e = nm) (pre @ x # post) = Some x"
  by (induction pre) simp_all








lemma element_loop_skip_after_faces:
  assumes "gotFaces st" and "\<forall>e\<in>set mid. name e \<noteq> kPLYVertexElement"
  shows "element_loop a fi (mid @ es) st = element_loop a fi es st"
  using assms(2)
proof (induction mid)
  case Nil
  then show ?case by simp
next
  case (Cons e mid)
  show ?case
  proof (cases "\<not> gotVerts st \<or> \<not> gotFaces st")
    case True
    from Cons.prems assms(1) have "loop_body a fi e st = Inr (Next st)"
      by (simp add: loop_body_def)
    with True Cons show ?thesis by simp
  next
    case False
    then show ?thesis by (simp add: element_loop_done)
  qed
qed

lemma vertex_element_first:
  assumes "load_element v" and "find_pos v = Some posData" and "buffers_fit v"
    and "pos (trimesh st) = None" "normal (trimesh st) = None" "uv (trimesh st) = None"
        "color (trimesh st) = None"
  shows "vertex_element v st =
           Inr (Next (st\<lparr>trimesh := (trimesh st)\<lparr>numVerts := num_rows v, pos := find_pos v,
                                                  normal := find_normal v, uv := find_texcoord v,
                                                  color := find_color_rgba v\<rparr>,
                          gotVerts := True\<rparr>))"
  using assms
  by (auto simp: vertex_element_def buffers_fit_def extract_optional_def extract_into_def Let_def
           split: option.splits)

lemma faces_then_vertex:
  assumes pre: "\<forall>e\<in>set pre. name e \<noteq> kPLYVertexElement \<and> name e \<noteq> kPLYFaceElement \<and>
                          name e \<noteq> ''tristrips''"
    and face: "face_element a fi faceElem initial_state =
                 Inr (Next (faces_first_state faceElem propIdx))"
    and nm: "name faceElem = kPLYFaceElement"
    and mid: "\<forall>e\<in>set mid. name e \<noteq> kPLYVertexElement"
    and v: "name vertexElem = kPLYVertexElement" "load_element vertexElem"
           "find_pos vertexElem = Some posData" "buffers_fit vertexElem"
  shows "(case element_loop a fi (pre @ faceElem # mid @ vertexElem # rest) initial_state of
            Inl f \<Rightarrow> Inl f
          | Inr st \<Rightarrow> finish st) = validated (faces_first_mesh faceElem propIdx vertexElem)"
proof -
  let ?st1 = "faces_first_state faceElem propIdx"
  let ?st2 = "?st1\<lparr>trimesh := (trimesh ?st1)\<lparr>numVerts := num_rows vertexElem,
                        pos := find_pos vertexElem, normal := find_normal vertexElem,
                        uv := find_texcoord vertexElem, color := find_color_rgba vertexElem\<rparr>,
                     gotVerts := True\<rparr>"
  have body: "loop_body a fi faceElem initial_state = face_element a fi faceElem initial_state"
    using nm
    by (simp add: loop_body_def initial_state_def kPLYVertexElement_def kPLYFaceElement_def)
  have "element_loop a fi (pre @ faceElem # mid @ vertexElem # rest) initial_state =
        element_loop a fi (faceElem # mid @ vertexElem # rest) initial_state"
    using pre by (simp add: element_loop_skip)
  also have "\<dots> = element_loop a fi (mid @ vertexElem # rest) ?st1"
    using body face by (simp add: initial_state_def)
  also have "\<dots> = element_loop a fi (vertexElem # rest) ?st1"
    using mid by (intro element_loop_skip_after_faces) (simp_all add: faces_first_state_def)
  also have "\<dots> = element_loop a fi rest ?st2"
  proof -
    have "vertex_element vertexElem ?st1 = Inr (Next ?st2)"
      using v(2,3,4)
      by (intro vertex_element_first) (simp_all add: faces_first_state_def new_TriMesh_def)
    then show ?thesis
      using v(1) by (simp add: loop_body_def faces_first_state_def)
  qed
  also have "\<dots> = Inr ?st2"
    by (intro element_loop_done) (simp_all add: faces_first_state_def)
  finally have "element_loop a fi (pre @ faceElem # mid @ vertexElem # rest) initial_state =
                Inr ?st2" .
  moreover have "trimesh ?st2 = faces_first_mesh faceElem propIdx vertexElem"
    by (simp add: faces_first_state_def faces_first_mesh_def new_TriMesh_def
                  extract_list_property_def)
  ultimately show ?thesis
    by (simp add: finish_def validated_def faces_first_state_def split: sum.splits)
qed

lemma parse_paths:
  assumes "valid reader" and "find_element reader kPLYFaceElement = Some faceElem"
  shows "parse_file_with_miniply reader assumeTriangles =
           extract_mesh reader (fast_path_kept assumeTriangles faceElem)
             (if fast_path_kept assumeTriangles faceElem
              then find_property faceElem ''vertex_indices'' else None)"
  using assms by (simp add: parse_file_with_miniply_def fast_path_kept_def Let_def)

lemmas parse_defs =
  parse_file_with_miniply_def file_of_def extract_mesh_def initial_state_def loop_body_def
  vertex_example_def list_example_def element_named_def kPLYVertexElement_def
  kPLYFaceElement_def vertex_element_def extract_into_def extract_optional_def
  tristrips_element_def set_indices_def face_element_def sum_of_list_counts_def
  extract_list_property_def finish_def all_indices_valid_def new_TriMesh_def
  find_element_def convert_list_to_fixed_size_def extract_fixed_size_def log_error_def
  indices_loop.simps word_le_nat_alt word_less_nat_alt

lemma strip_file_parse:
  "parse_file_with_miniply strip_file False = Inr (Some strip_mesh, [])"
  by (simp add: strip_file_def strip_mesh_def parse_defs)

lemma first_vertex_file_parse:
  "parse_file_with_miniply first_vertex_file False = Inr (None, [])"
  by (simp add: first_vertex_file_def parse_defs)

lemma strip_file_parse_fast:
  "parse_file_with_miniply strip_file True = Inr (None, [])"
  by (simp add: strip_file_def parse_defs)

section \<open>The harness\<close>





lemma collect_filenames_filter:
  "collect_filenames env (filter (\<lambda>arg. \<not> starts_with_dash arg) argv) acc =
   collect_filenames env argv acc"
proof (induction argv arbitrary: acc)
  case Nil
  then show ?case by simp
next
  case (Cons arg argv)
  obtain filenames errs where "acc = (filenames, errs)" by (cases acc)
  with Cons show ?case
    by (auto split: option.splits sum.splits)
qed

lemma find_assume_triangles_iff:
  "find_assume_triangles argv = (''--assume-triangles'' \<in> set argv)"
  by (induction argv) auto

lemma batch_loop_Inr:
  "batch_loop env a w fs st = Inr st' \<Longrightarrow>
     numPassed st' = numPassed st + int (length (filter (passed env a) fs)) \<and>
     numFailed st' = numFailed st + int (length (filter (\<lambda>f. \<not> passed env a f) fs)) \<and>
     stdout st' = stdout st @ map (\<lambda>f. Report w f (passed env a f)) fs \<and>
     stderr st' = stderr st @ concat (map (file_diagnostics env a) fs)"
proof (induction fs arbitrary: st)
  case Nil
  then show ?case by simp
next
  case (Cons f fs)
  from Cons.prems obtain mesh diag where
    parse: "parse_file_with_miniply (open_ply env f) a = Inr (mesh, diag)"
    by (auto split: sum.splits)
  show ?case
  proof (cases mesh)
    case None
    with parse have p: "\<not> passed env a f" "file_diagnostics env a f = diag"
      by (simp_all add: passed_def file_diagnostics_def)
    from Cons.prems parse None
    have "batch_loop env a w fs
            (st\<lparr>stdout := stdout st @ [Report w f False], stderr := stderr st @ diag,
                numFailed := numFailed st + 1\<rparr>) = Inr st'"
      by (simp add: Let_def split: if_splits)
    from Cons.IH [OF this] p show ?thesis by simp
  next
    case (Some m)
    with parse have p: "passed env a f" "file_diagnostics env a f = diag"
      by (simp_all add: passed_def file_diagnostics_def)
    from Cons.prems parse Some
    have "batch_loop env a w fs
            (st\<lparr>stdout := stdout st @ [Report w f True], stderr := stderr st @ diag,
                numPassed := numPassed st + 1\<rparr>) = Inr st'"
      by (simp add: Let_def split: if_splits)
    from Cons.IH [OF this] p show ?thesis by simp
  qed
qed

lemma batch_loop_runs:
  assumes "list_all (no_fault env a) fs"
    and "numPassed st + int (length fs) \<le> INT_MAX"
    and "numFailed st + int (length fs) \<le> INT_MAX"
  shows "\<exists>st'. batch_loop env a w fs st = Inr st'"
  using assms
proof (induction fs arbitrary: st)
  case Nil
  then show ?case by simp
next
  case (Cons f fs)
  from Cons.prems(1) obtain mesh diag where
    parse: "parse_file_with_miniply (open_ply env f) a = Inr (mesh, diag)"
    by (auto simp: no_fault_def split: sum.splits)
  show ?case
  proof (cases mesh)
    case None
    let ?st = "st\<lparr>stdout := stdout st @ [Report w f False], stderr := stderr st @ diag,
                   numFailed := numFailed st + 1\<rparr>"
    from Cons.prems have "\<exists>st'. batch_loop env a w fs ?st = Inr st'"
      by (intro Cons.IH) simp_all
    with Cons.prems parse None show ?thesis
      by (simp add: Let_def)
  next
    case (Some m)
    let ?st = "st\<lparr>stdout := stdout st @ [Report w f True], stderr := stderr st @ diag,
                   numPassed := numPassed st + 1\<rparr>"
    from Cons.prems have "\<exists>st'. batch_loop env a w fs ?st = Inr st'"
      by (intro Cons.IH) simp_all
    with Cons.prems parse Some show ?thesis
      by (simp add: Let_def)
  qed
qed

lemma main_Inr:
  assumes "main env argv = Inr (status, printed, errs)"
  shows "\<exists>filenames errs'. collect_filenames env argv ([], []) = Inr (filenames, errs') \<and>
           (filenames \<noteq> [] \<longrightarrow>
              (\<exists>st. batch_loop env (find_assume_triangles argv) (max_width filenames) filenames
                      \<lparr>numPassed = 0, numFailed = 0, stdout = [], stderr = errs'\<rparr> = Inr st \<and>
                    printed = stdout st @
                          [Separator, TotalTime, PassedCount (numPassed st),
                           FailedCount (numFailed st)]))"
proof (cases "collect_filenames env argv ([], [])")
  case (Inl f)
  with assms show ?thesis by (simp add: main_def)
next
  case (Inr r)
  obtain filenames errs' where r: "r = (filenames, errs')" by (cases r)
  show ?thesis
  proof (cases "filenames = []")
    case True
    with Inr r show ?thesis by simp
  next
    case False
    let ?loop = "batch_loop env (find_assume_triangles argv) (max_width filenames) filenames
                      \<lparr>numPassed = 0, numFailed = 0, stdout = [], stderr = errs'\<rparr>"
    show ?thesis
    proof (cases ?loop)
      case (Inl f)
      with assms Inr r False show ?thesis by (simp add: main_def)
    next
      case loop: (Inr st)
      with assms Inr r False
      have "printed = stdout st @
                  [Separator, TotalTime, PassedCount (numPassed st), FailedCount (numFailed st)]"
        by (simp add: main_def)
      with Inr r loop show ?thesis by simp
    qed
  qed
qed

section \<open>The claims\<close>

text \<open>
  C1, as the claim states it, fails: a file with a vertex element and a triangle strips
  element, and no face element, yields a mesh without the fast-path flag and the null
  pointer with it.
\<close>

theorem assume_triangles_without_face_counterexample:
  "find_element strip_file kPLYFaceElement = None \<and>
   parse_file_with_miniply strip_file False = Inr (Some strip_mesh, []) \<and>
   parse_file_with_miniply strip_file True = Inr (None, [])"
  by (simp add: strip_file_def strip_mesh_def parse_defs)

text \<open>
  C1, amended. With the fast-path flag on a file that has no face element, extraction
  returns the null pointer at once, with nothing printed: the flag is not demoted.
\<close>

theorem assume_triangles_without_face:
  assumes "find_element reader kPLYFaceElement = None"
  shows "parse_file_with_miniply reader True = Inr (None, [])"
  using assms by (simp add: parse_file_with_miniply_def)

theorem assume_triangles_without_face_witness:
  "find_element strip_file kPLYFaceElement = None \<and>
   parse_file_with_miniply strip_file True = Inr (None, [])"
proof -
  have none: "find_element strip_file kPLYFaceElement = None"
    by (simp add: strip_file_def parse_defs)
  from assume_triangles_without_face [OF none] none show ?thesis by simp
qed

text \<open>
  C2. Every mesh that extraction returns passed the validity check: each of the
  \<open>numIndices\<close> cells of its index array was written and either holds the terminator,
  with a strip or fan topology and a terminator in use, or holds an index \<open>i\<close> with
  \<open>0 \<le> i < numVerts\<close>. A mesh is returned only when the file has a vertex element and
  a face or triangle strips element; in every other case the result is the null pointer.
\<close>

theorem extracted_mesh_indices_valid:
  assumes "parse_file_with_miniply reader assumeTriangles = Inr (Some m, d)"
  shows "(\<forall>k < unat (numIndices m).
            k < length (indices m) \<and>
            ((topology m \<noteq> Soup \<and> hasTerminator m \<and> indices m ! k = terminator m) \<or>
             (0 \<le> sint (indices m ! k) \<and> sint (indices m ! k) < uint (numVerts m)))) \<and>
         all_indices_valid m = Inr True \<and>
         (\<exists>e\<in>set (elements reader). name e = kPLYVertexElement) \<and>
         (\<exists>e\<in>set (elements reader). name e = kPLYFaceElement \<or> name e = ''tristrips'')"
proof -
  from parse_Some [OF assms] obtain a' fi st where
    loop: "element_loop a' fi (elements reader) initial_state = Inr st" and
    got: "gotVerts st" "gotFaces st" and
    ok: "all_indices_valid m = Inr True"
    by blast
  from element_loop_gotVerts [OF loop got(1)]
  have verts: "\<exists>e\<in>set (elements reader). name e = kPLYVertexElement"
    by (simp add: initial_state_def)
  from element_loop_gotFaces [OF loop got(2)]
  have faces: "\<exists>e\<in>set (elements reader). name e = kPLYFaceElement \<or> name e = ''tristrips''"
    by (simp add: initial_state_def)
  from ok have "\<forall>k < unat (numIndices m).
            k < length (indices m) \<and>
            ((topology m \<noteq> Soup \<and> hasTerminator m \<and> indices m ! k = terminator m) \<or>
             (0 \<le> sint (indices m ! k) \<and> sint (indices m ! k) < uint (numVerts m)))"
    using all_indices_valid_True by blast
  with ok verts faces show ?thesis by blast
qed

theorem extracted_mesh_indices_valid_witness:
  "parse_file_with_miniply strip_file False = Inr (Some strip_mesh, []) \<and>
   all_indices_valid strip_mesh = Inr True \<and>
   0 \<le> sint (indices strip_mesh ! 2) \<and>
   sint (indices strip_mesh ! 2) < uint (numVerts strip_mesh)"
proof -
  note valid = extracted_mesh_indices_valid [OF strip_file_parse]
  have "(2 :: nat) < unat (numIndices strip_mesh)"
    by (simp add: strip_mesh_def)
  with valid have "(topology strip_mesh \<noteq> Soup \<and> hasTerminator strip_mesh \<and>
        indices strip_mesh ! 2 = terminator strip_mesh) \<or>
       (0 \<le> sint (indices strip_mesh ! 2) \<and>
        sint (indices strip_mesh ! 2) < uint (numVerts strip_mesh))"
    by blast
  moreover have "indices strip_mesh ! 2 \<noteq> terminator strip_mesh"
    by (simp add: strip_mesh_def)
  ultimately show ?thesis
    using valid strip_file_parse by blast
qed

text \<open>
  C3. The claim asks that the first vertex element wins. On a file with two vertex
  elements ahead of the face element the loop loads the second one as well and replaces
  the data of the first: the mesh returned has the three vertices of the second element,
  where the first element alone, with its single vertex, fails the validity check.
\<close>

theorem second_vertex_element_replaces_first:
  "parse_file_with_miniply two_vertex_file False = Inr (Some soup_mesh, []) \<and>
   parse_file_with_miniply first_vertex_file False = Inr (None, [])"
  by (simp add: two_vertex_file_def first_vertex_file_def soup_mesh_def parse_defs)

text \<open>
  C4, as the claim states it, fails: when a triangle strips element comes first, a face
  element that needs triangulation and stands before the vertex element is skipped; a
  strip mesh is returned and nothing is printed.
\<close>

theorem face_after_strips_counterexample:
  "name quad_example = kPLYFaceElement \<and>
   find_indices quad_example = Some 0 \<and>
   requires_triangulation quad_example 0 \<and>
   parse_file_with_miniply strips_first_file False = Inr (Some strips_first_mesh, [])"
  by (simp add: strips_first_file_def strips_first_mesh_def quad_example_def parse_defs)

text \<open>
  C4, amended. Take a face element that comes before every vertex, face and triangle
  strips element, and that loads. On the general path (the fast path was not asked for,
  or was demoted), if it has an index property whose lists need triangulation,
  extraction returns the null pointer and the ordering diagnostic is the one line
  printed. If the lists need no triangulation, or the fast path is kept, the element is
  consumed and extraction does not fail for it: when the next vertex element loads with
  positions, the result is decided by the validity check alone, and nothing is printed.
\<close>

theorem face_before_vertex:
  assumes "valid reader"
    and "elements reader = pre @ faceElem # post"
    and "\<forall>e\<in>set pre. name e \<noteq> kPLYVertexElement \<and> name e \<noteq> kPLYFaceElement \<and>
                          name e \<noteq> ''tristrips''"
    and "name faceElem = kPLYFaceElement"
    and "load_element faceElem"
  shows "(\<not> fast_path_kept assumeTriangles faceElem \<and>
          find_indices faceElem = Some propIdx \<and>
          requires_triangulation faceElem propIdx \<longrightarrow>
            parse_file_with_miniply reader assumeTriangles = Inr (None, [ordering_error])) \<and>
         (((fast_path_kept assumeTriangles faceElem \<and>
            find_property faceElem ''vertex_indices'' = Some propIdx) \<or>
           (\<not> fast_path_kept assumeTriangles faceElem \<and>
            find_indices faceElem = Some propIdx \<and>
            \<not> requires_triangulation faceElem propIdx)) \<and>
          length (concat (list_rows faceElem propIdx)) \<le> unat (num_rows faceElem * 3) \<and>
          post = mid @ vertexElem # rest \<and>
          (\<forall>e\<in>set mid. name e \<noteq> kPLYVertexElement) \<and>
          name vertexElem = kPLYVertexElement \<and>
          load_element vertexElem \<and>
          find_pos vertexElem = Some posData \<and>
          buffers_fit vertexElem \<longrightarrow>
            parse_file_with_miniply reader assumeTriangles =
              validated (faces_first_mesh faceElem propIdx vertexElem))"
proof -
  let ?fast = "fast_path_kept assumeTriangles faceElem"
  let ?fi = "if ?fast then find_property faceElem ''vertex_indices'' else None"
  from assms(2,3,4) have "find_element reader kPLYFaceElement = Some faceElem"
    by (simp add: find_element_def find_first_named)
  from parse_paths [OF assms(1) this]
  have parse: "parse_file_with_miniply reader assumeTriangles = extract_mesh reader ?fast ?fi" .
  have polys: "parse_file_with_miniply reader assumeTriangles = Inr (None, [ordering_error])"
    if general: "\<not> ?fast" and idx: "find_indices faceElem = Some propIdx"
      and req: "requires_triangulation faceElem propIdx"
  proof -
    have loop: "element_loop False None (elements reader) initial_state =
                element_loop False None (faceElem # post) initial_state"
      using assms(2,3) by (simp add: element_loop_skip)
    have body: "loop_body False None faceElem initial_state =
                face_element False None faceElem initial_state"
      using assms(4)
      by (simp add: loop_body_def initial_state_def kPLYVertexElement_def kPLYFaceElement_def)
    from assms(5) idx req have "face_element False None faceElem initial_state =
          Inr (Break (log_error ordering_error initial_state))"
      by (simp add: face_element_def initial_state_def)
    with body loop have "element_loop False None (elements reader) initial_state =
          Inr (log_error ordering_error initial_state)"
      by (simp add: initial_state_def)
    with general show ?thesis
      by (simp add: parse extract_mesh_def finish_def log_error_def initial_state_def)
  qed
  have tris: "parse_file_with_miniply reader assumeTriangles =
                validated (faces_first_mesh faceElem propIdx vertexElem)"
    if path: "(?fast \<and> find_property faceElem ''vertex_indices'' = Some propIdx) \<or>
              (\<not> ?fast \<and> find_indices faceElem = Some propIdx \<and>
               \<not> requires_triangulation faceElem propIdx)"
      and fits: "length (concat (list_rows faceElem propIdx)) \<le> unat (num_rows faceElem * 3)"
      and post: "post = mid @ vertexElem # rest"
      and mid: "\<forall>e\<in>set mid. name e \<noteq> kPLYVertexElement"
      and v: "name vertexElem = kPLYVertexElement" "load_element vertexElem"
             "find_pos vertexElem = Some posData" "buffers_fit vertexElem"
  proof -
    have face: "face_element ?fast ?fi faceElem initial_state =
                  Inr (Next (faces_first_state faceElem propIdx))"
      using path assms(5) fits
      by (auto simp: face_element_def initial_state_def set_indices_def extract_into_def
                     faces_first_state_def extract_fixed_size_def extract_list_property_def)
    from faces_then_vertex [OF assms(3) face assms(4) mid v]
    show ?thesis
      by (simp add: parse extract_mesh_def assms(2) post)
  qed
  from polys tris show ?thesis by blast
qed

theorem face_before_vertex_witness:
  "parse_file_with_miniply quad_first_file False = Inr (None, [ordering_error]) \<and>
   parse_file_with_miniply face_first_file False = Inr (Some soup_mesh, []) \<and>
   parse_file_with_miniply face_first_file True = Inr (Some soup_mesh, [])"
proof -
  let ?v4 = "vertex_example 4 [0, 0, 0, 1, 0, 0, 1, 1, 0, 0, 1, 0]"
  let ?v3 = "vertex_example 3 [0, 0, 0, 1, 0, 0, 0, 1, 0]"
  let ?tri = "list_example ''face'' [[0, 1, 2]]"
  have mesh: "validated (faces_first_mesh ?tri 0 ?v3) = Inr (Some soup_mesh, [])"
    by (simp add: validated_def faces_first_mesh_def soup_mesh_def parse_defs)
  have quad: "parse_file_with_miniply quad_first_file False = Inr (None, [ordering_error])"
    using face_before_vertex [of quad_first_file "[]" quad_example "[?v4]" False 0]
    by (simp add: quad_first_file_def quad_example_def file_of_def list_example_def
                  element_named_def kPLYFaceElement_def fast_path_kept_def)
  have "parse_file_with_miniply face_first_file False = validated (faces_first_mesh ?tri 0 ?v3)"
    using face_before_vertex [of face_first_file "[]" ?tri "[?v3]" False 0 "[]" ?v3 "[]"
                                 "[0, 0, 0, 1, 0, 0, 0, 1, 0]"]
    by (simp add: face_first_file_def file_of_def list_example_def vertex_example_def
                  element_named_def kPLYFaceElement_def kPLYVertexElement_def
                  fast_path_kept_def buffers_fit_def)
  with mesh have general: "parse_file_with_miniply face_first_file False = Inr (Some soup_mesh, [])"
    by simp
  have "parse_file_with_miniply face_first_file True = validated (faces_first_mesh ?tri 0 ?v3)"
    using face_before_vertex [of face_first_file "[]" ?tri "[?v3]" True 0 "[]" ?v3 "[]"
                                 "[0, 0, 0, 1, 0, 0, 0, 1, 0]"]
    by (simp add: face_first_file_def file_of_def list_example_def vertex_example_def
                  element_named_def kPLYFaceElement_def kPLYVertexElement_def
                  fast_path_kept_def buffers_fit_def convert_list_to_fixed_size_def)
  with mesh have fast: "parse_file_with_miniply face_first_file True = Inr (Some soup_mesh, [])"
    by simp
  from quad general fast show ?thesis by simp
qed

text \<open>
  C5. The loop that strips the trailing newlines asks for the last character of the
  string before every pass. On a line that holds a newline only, the first pass removes
  it and the second test reads the last character of the empty string.
\<close>

theorem strip_newlines_blank_line:
  "strip_newlines [CHR 0x0A] = Inl EmptyStringBack"
  by simp

text \<open>
  C6. When the face element's \<^verbatim>\<open>vertex_indices\<close> lists are not all of length 3 (or
  it has no such property), asking for the fast path changes nothing: the result is the
  result of the general path, and a mesh that is returned passed the validity check.
\<close>

theorem fast_path_demotion:
  assumes "find_element reader kPLYFaceElement = Some faceElem"
    and "\<And>p. find_property faceElem ''vertex_indices'' = Some p \<Longrightarrow>
            \<exists>row\<in>set (list_rows faceElem p). length row \<noteq> 3"
  shows "parse_file_with_miniply reader True = parse_file_with_miniply reader False \<and>
         (\<forall>m d. parse_file_with_miniply reader True = Inr (Some m, d) \<longrightarrow>
                all_indices_valid m = Inr True)"
proof -
  have "\<not> convert_list_to_fixed_size faceElem (find_property faceElem ''vertex_indices'') 3"
    using assms(2)
    by (auto simp: convert_list_to_fixed_size_def list_all_iff split: option.splits)
  with assms(1) have "parse_file_with_miniply reader True = parse_file_with_miniply reader False"
    by (simp add: parse_file_with_miniply_def)
  then show ?thesis
    by (auto dest: parse_Some)
qed

theorem fast_path_demotion_witness:
  "find_element quad_file kPLYFaceElement = Some quad_example \<and>
   find_property quad_example ''vertex_indices'' = Some 0 \<and>
   list_rows quad_example 0 = [[0, 1, 2, 3]] \<and>
   parse_file_with_miniply quad_file True = Inr (Some quad_mesh, []) \<and>
   parse_file_with_miniply quad_file False = Inr (Some quad_mesh, []) \<and>
   all_indices_valid quad_mesh = Inr True"
proof -
  have face: "find_element quad_file kPLYFaceElement = Some quad_example"
    by (simp add: quad_file_def quad_example_def parse_defs)
  have vi: "find_property quad_example ''vertex_indices'' = Some 0"
    and rows: "list_rows quad_example 0 = [[0, 1, 2, 3]]"
    by (simp_all add: quad_example_def list_example_def)
  have general: "parse_file_with_miniply quad_file False = Inr (Some quad_mesh, [])"
    by (simp add: quad_file_def quad_example_def quad_mesh_def parse_defs)
  have "\<And>p. find_property quad_example ''vertex_indices'' = Some p \<Longrightarrow>
            \<exists>row\<in>set (list_rows quad_example p). length row \<noteq> 3"
    using vi rows by simp
  from fast_path_demotion [OF face this] general face vi rows show ?thesis
    by simp
qed



text \<open>
  C8. When the arguments resolve to file names, no extraction faults and there are at
  most \<open>INT_MAX\<close> names, \<open>main\<close> returns: with success exactly when there is no file
  name or every file passed, and failure otherwise; with one report line for every file
  name, in order, whatever the outcome of the files before it; and with tallies equal to
  the numbers of files that passed and that failed.
\<close>

theorem batch_exit_status:
  assumes "collect_filenames env argv ([], []) = Inr (filenames, errs)"
    and "list_all (no_fault env (find_assume_triangles argv)) filenames"
    and "int (length filenames) \<le> INT_MAX"
  shows "main env argv =
           Inr (if filenames = [] \<or>
                   list_all (passed env (find_assume_triangles argv)) filenames
                then EXIT_SUCCESS else EXIT_FAILURE,
                if filenames = [] then []
                else reports env (find_assume_triangles argv) filenames @
                     [Separator, TotalTime,
                      PassedCount (count_passed env (find_assume_triangles argv) filenames),
                      FailedCount (count_failed env (find_assume_triangles argv) filenames)],
                errs @ (if filenames = [] then [''No input files provided.'']
                        else concat (map (file_diagnostics env (find_assume_triangles argv))
                                       filenames)))"
proof (cases "filenames = []")
  case True
  with assms(1) show ?thesis by (simp add: main_def)
next
  case False
  let ?a = "find_assume_triangles argv"
  let ?st = "\<lparr>numPassed = 0, numFailed = 0, stdout = [], stderr = errs\<rparr>"
  from assms(2,3) obtain st' where
    run: "batch_loop env ?a (max_width filenames) filenames ?st = Inr st'"
    using batch_loop_runs [of env ?a filenames ?st "max_width filenames"] by auto
  note st' = batch_loop_Inr [OF run]
  have "(0 < numFailed st') = (\<not> list_all (passed env ?a) filenames)"
    using st' by (auto simp: list_all_iff filter_empty_conv)
  with False assms(1) run st' show ?thesis
    by (simp add: main_def reports_def count_passed_def count_failed_def)
qed

theorem batch_exit_status_witness:
  "main example_env [''list.txt'', ''none.txt'', ''strip.ply''] =
     Inr (EXIT_FAILURE,
          [Report 9 ''strip.ply'' True, Report 9 ''bad.ply'' False, Report 9 ''strip.ply'' True,
           Separator, TotalTime, PassedCount 2, FailedCount 1],
          [''Failed to open none.txt''])"
proof -
  let ?argv = "[''list.txt'', ''none.txt'', ''strip.ply'']"
  let ?files = "[''strip.ply'', ''bad.ply'', ''strip.ply'']"
  have collect: "collect_filenames example_env ?argv ([], []) =
                   Inr (?files, [''Failed to open none.txt''])"
    by (simp add: example_env_def has_extension_def starts_with_dash_def)
  have flag: "find_assume_triangles ?argv = False"
    by simp
  have strip: "parse_file_with_miniply (open_ply example_env ''strip.ply'') False =
                 Inr (Some strip_mesh, [])"
    by (simp add: example_env_def strip_file_parse)
  have bad: "parse_file_with_miniply (open_ply example_env ''bad.ply'') False = Inr (None, [])"
    by (simp add: example_env_def first_vertex_file_parse)
  have runs: "list_all (no_fault example_env (find_assume_triangles ?argv)) ?files"
    by (simp only: flag) (simp add: no_fault_def strip bad)
  have count: "int (length ?files) \<le> INT_MAX"
    by (simp add: INT_MAX_def)
  show ?thesis
    by (simp only: batch_exit_status [OF collect runs count] flag)
       (simp add: passed_def file_diagnostics_def reports_def count_passed_def
                  count_failed_def max_width_def strip bad)
qed




text \<open>
  C10. The arguments that begin with a dash add no file name; the fast path is asked for
  exactly when \<^verbatim>\<open>--assume-triangles\<close> is among the arguments, wherever it stands;
  removing every other dashed argument changes nothing of what \<open>main\<close> returns and
  prints; and the report line of every file of the batch is the outcome of its
  extraction with that flag.
\<close>

theorem dash_arguments:
  "collect_filenames env argv acc =
     collect_filenames env (filter (\<lambda>arg. \<not> starts_with_dash arg) argv) acc \<and>
   find_assume_triangles argv = (''--assume-triangles'' \<in> set argv) \<and>
   main env argv =
     main env (filter (\<lambda>arg. \<not> starts_with_dash arg \<or> arg = ''--assume-triangles'') argv) \<and>
   (\<forall>status printed errs. main env argv = Inr (status, printed, errs) \<longrightarrow>
      (\<exists>filenames errs'. collect_filenames env argv ([], []) = Inr (filenames, errs') \<and>
         (filenames \<noteq> [] \<longrightarrow>
            take (length filenames) printed =
              reports env (''--assume-triangles'' \<in> set argv) filenames)))"
proof -
  let ?keep = "\<lambda>arg. \<not> starts_with_dash arg \<or> arg = ''--assume-triangles''"
  let ?plain = "\<lambda>arg. \<not> starts_with_dash arg"
  have flag: "find_assume_triangles (filter ?keep argv) = find_assume_triangles argv"
    by (simp add: find_assume_triangles_iff)
  have twice: "filter ?plain (filter ?keep argv) = filter ?plain argv"
    by (induction argv) simp_all
  have "collect_filenames env (filter ?keep argv) ([], []) =
        collect_filenames env (filter ?plain (filter ?keep argv)) ([], [])"
    by (rule collect_filenames_filter [symmetric])
  also have "\<dots> = collect_filenames env (filter ?plain argv) ([], [])"
    by (simp only: twice)
  also have "\<dots> = collect_filenames env argv ([], [])"
    by (rule collect_filenames_filter)
  finally have same: "main env argv = main env (filter ?keep argv)"
    by (simp only: main_def flag)
  have every: "\<exists>filenames errs'. collect_filenames env argv ([], []) = Inr (filenames, errs') \<and>
         (filenames \<noteq> [] \<longrightarrow>
            take (length filenames) printed =
              reports env (''--assume-triangles'' \<in> set argv) filenames)"
    if run: "main env argv = Inr (status, printed, errs)" for status printed errs
  proof -
    from main_Inr [OF run] obtain filenames errs' where
      collect: "collect_filenames env argv ([], []) = Inr (filenames, errs')" and
      loop: "filenames \<noteq> [] \<longrightarrow>
              (\<exists>st. batch_loop env (find_assume_triangles argv) (max_width filenames) filenames
                      \<lparr>numPassed = 0, numFailed = 0, stdout = [], stderr = errs'\<rparr> = Inr st \<and>
                    printed = stdout st @
                          [Separator, TotalTime, PassedCount (numPassed st),
                           FailedCount (numFailed st)])"
      by blast
    have "take (length filenames) printed =
            reports env (''--assume-triangles'' \<in> set argv) filenames"
      if "filenames \<noteq> []"
    proof -
      from loop that obtain st where
        st: "batch_loop env (find_assume_triangles argv) (max_width filenames) filenames
                 \<lparr>numPassed = 0, numFailed = 0, stdout = [], stderr = errs'\<rparr> = Inr st"
        and out: "printed = stdout st @ [Separator, TotalTime, PassedCount (numPassed st),
                                FailedCount (numFailed st)]"
        by blast
      from batch_loop_Inr [OF st]
      have "stdout st =
              reports env (''--assume-triangles'' \<in> set argv) filenames"
        by (simp add: reports_def find_assume_triangles_iff)
      with out show ?thesis by (simp add: reports_def)
    qed
    with collect show ?thesis by blast
  qed
  have first: "collect_filenames env argv acc = collect_filenames env (filter ?plain argv) acc"
    by (rule collect_filenames_filter [symmetric])
  from first find_assume_triangles_iff [of argv] same every show ?thesis
    by blast
qed

theorem dash_arguments_witness:
  "main example_env [''--bogus'', ''strip.ply'', ''--assume-triangles''] =
     main example_env [''strip.ply'', ''--assume-triangles''] \<and>
   main example_env [''--bogus'', ''strip.ply'', ''--assume-triangles''] =
     Inr (EXIT_FAILURE,
          [Report 9 ''strip.ply'' False, Separator, TotalTime, PassedCount 0, FailedCount 1],
          [])"
proof -
  have "parse_file_with_miniply (open_ply example_env ''strip.ply'') True = Inr (None, [])"
    by (simp add: example_env_def strip_file_parse_fast)
  then have "main example_env [''strip.ply'', ''--assume-triangles''] =
     Inr (EXIT_FAILURE,
          [Report 9 ''strip.ply'' False, Separator, TotalTime, PassedCount 0, FailedCount 1],
          [])"
    by (simp add: main_def has_extension_def starts_with_dash_def max_width_def INT_MAX_def)
  with dash_arguments [of example_env "[''--bogus'', ''strip.ply'', ''--assume-triangles'']"]
  show ?thesis
    by (simp add: starts_with_dash_def)
qed

end
